theory Spec2Isabelle
  imports Complex_Main
begin

section \<open>Python values used by the transcription service\<close>

text \<open>
  The service is Python: its numbers are IEEE 754 binary64 floats and unbounded
  integers, its records are dictionaries. A finite float is modelled by the rational
  number it denotes (so \<open>-0.0\<close> and \<open>0.0\<close>, which Python compares equal, are one
  value); the two infinities and NaN are separate constructors.
\<close>

datatype pyfloat = Finite rat | PosInf | NegInf | NaN

text \<open>Rounding a rational to the nearest integer, ties to the even neighbour.\<close>

definition round_half_even :: "rat \<Rightarrow> int" where
  "round_half_even q =
     (let f = \<lfloor>q\<rfloor>; d = q - of_int f
      in if d < 1 / 2 then f
         else if 1 / 2 < d then f + 1
         else if even f then f else f + 1)"

definition pow2 :: "int \<Rightarrow> rat" where
  "pow2 k = (if 0 \<le> k then 2 ^ nat k else 1 / 2 ^ nat (- k))"

text \<open>The number of binary digits of a positive integer.\<close>

function bit_length :: "int \<Rightarrow> nat" where
  "bit_length n = (if n \<le> 0 then 0 else Suc (bit_length (n div 2)))"
  by pat_completeness auto
termination
  by (relation "measure nat") auto

declare bit_length.simps [simp del]

text \<open>
  \<open>ilog2 r\<close> is the binary exponent of a non-zero rational: the integer \<open>e\<close> with
  \<open>2 ^ e \<le> |r| < 2 ^ (e + 1)\<close>. It is one of two candidates read off the bit lengths
  of numerator and denominator.
\<close>

definition ilog2 :: "rat \<Rightarrow> int" where
  "ilog2 r =
     (let (p, q) = quotient_of r;
          e0 = int (bit_length \<bar>p\<bar>) - int (bit_length q)
      in if pow2 e0 \<le> \<bar>r\<bar> then e0 else e0 - 1)"

text \<open>
  The binary64 value nearest to a rational (round to nearest, ties to even): 53
  significant bits, the exponent floor of the subnormals at \<open>-1022\<close>, and overflow to an
  infinity when the rounded value reaches \<open>2 ^ 1024\<close>. This is how Python reads a
  float literal and how every float operation rounds its exact result.
\<close>

definition to_double :: "rat \<Rightarrow> pyfloat" where
  "to_double r =
     (if r = 0 then Finite 0
      else let e = max (ilog2 r) (- 1022);
               ulp = pow2 (e - 52);
               v = of_int (round_half_even (r / ulp)) * ulp
           in if pow2 1024 \<le> \<bar>v\<bar> then (if 0 < r then PosInf else NegInf)
              else Finite v)"

text \<open>Float subtraction \<open>a - b\<close>.\<close>

fun float_sub :: "pyfloat \<Rightarrow> pyfloat \<Rightarrow> pyfloat" where
  "float_sub NaN _ = NaN"
| "float_sub _ NaN = NaN"
| "float_sub (Finite a) (Finite b) = to_double (a - b)"
| "float_sub (Finite a) PosInf = NegInf"
| "float_sub (Finite a) NegInf = PosInf"
| "float_sub PosInf PosInf = NaN"
| "float_sub PosInf _ = PosInf"
| "float_sub NegInf NegInf = NaN"
| "float_sub NegInf _ = NegInf"

text \<open>
  \<open>round(x, 3)\<close> on a float: NaN and the infinities round to themselves; a finite
  value is rounded, as the exact rational it is, to three decimals (ties to even) and
  the resulting decimal is read back as a float.
\<close>

fun float_round3 :: "pyfloat \<Rightarrow> pyfloat" where
  "float_round3 (Finite r) = to_double (of_int (round_half_even (r * 1000)) / 1000)"
| "float_round3 x = x"

text \<open>\<open>x <= 0\<close> and \<open>x > 0\<close> on floats; every comparison with NaN is false.\<close>

fun float_le0 :: "pyfloat \<Rightarrow> bool" where
  "float_le0 (Finite r) = (r \<le> 0)"
| "float_le0 NegInf = True"
| "float_le0 PosInf = False"
| "float_le0 NaN = False"

fun float_gt0 :: "pyfloat \<Rightarrow> bool" where
  "float_gt0 (Finite r) = (0 < r)"
| "float_gt0 PosInf = True"
| "float_gt0 NegInf = False"
| "float_gt0 NaN = False"

text \<open>
  The Python objects that can sit in a segment dictionary. Strings are sequences of
  code points; a \<open>char\<close> is a code point below 256.
\<close>

datatype pyval = PyInt int | PyFloat pyfloat | PyStr string | PyNone

text \<open>An exception: its class name and \<open>str(exc)\<close>.\<close>

datatype py_exception = PyExc (exc_class: string) (exc_str: string)

fun type_name :: "pyval \<Rightarrow> string" where
  "type_name (PyInt _) = ''int''"
| "type_name (PyFloat _) = ''float''"
| "type_name (PyStr _) = ''str''"
| "type_name PyNone = ''NoneType''"

text \<open>
  An integer operand of a float operation is converted to a float first; Python raises
  OverflowError when the integer is beyond the float range.
\<close>

definition int_to_float :: "int \<Rightarrow> py_exception + pyfloat" where
  "int_to_float n =
     (case to_double (of_int n) of
        Finite r \<Rightarrow> Inr (Finite r)
      | _ \<Rightarrow> Inl (PyExc ''OverflowError'' ''int too large to convert to float''))"

text \<open>The binary operator \<open>a - b\<close>.\<close>

fun py_sub :: "pyval \<Rightarrow> pyval \<Rightarrow> py_exception + pyval" where
  "py_sub (PyInt a) (PyInt b) = Inr (PyInt (a - b))"
| "py_sub (PyFloat a) (PyFloat b) = Inr (PyFloat (float_sub a b))"
| "py_sub (PyInt a) (PyFloat b) =
     (case int_to_float a of Inl e \<Rightarrow> Inl e | Inr fa \<Rightarrow> Inr (PyFloat (float_sub fa b)))"
| "py_sub (PyFloat a) (PyInt b) =
     (case int_to_float b of Inl e \<Rightarrow> Inl e | Inr fb \<Rightarrow> Inr (PyFloat (float_sub a fb)))"
| "py_sub a b =
     Inl (PyExc ''TypeError''
       (''unsupported operand type(s) for -: '' @ [CHR 0x27] @ type_name a @ [CHR 0x27] @
        '' and '' @ [CHR 0x27] @ type_name b @ [CHR 0x27]))"

text \<open>\<open>round(x, 3)\<close>: an integer is returned unchanged, a float is rounded.\<close>

fun py_round3 :: "pyval \<Rightarrow> py_exception + pyval" where
  "py_round3 (PyInt n) = Inr (PyInt n)"
| "py_round3 (PyFloat x) = Inr (PyFloat (float_round3 x))"
| "py_round3 v =
     Inl (PyExc ''TypeError'' (''type '' @ type_name v @ '' doesn't define __round__ method''))"

text \<open>\<open>x <= 0\<close>, the right operand being the integer literal.\<close>

fun py_le0 :: "pyval \<Rightarrow> py_exception + bool" where
  "py_le0 (PyInt n) = Inr (n \<le> 0)"
| "py_le0 (PyFloat x) = Inr (float_le0 x)"
| "py_le0 v =
     Inl (PyExc ''TypeError''
       ([CHR 0x27] @ ''<='' @ [CHR 0x27] @ '' not supported between instances of '' @
        [CHR 0x27] @ type_name v @ [CHR 0x27] @ '' and '' @ [CHR 0x27] @ ''int'' @ [CHR 0x27]))"

text \<open>\<open>x > 0\<close> as a predicate on numbers (false on anything that is not a number).\<close>

fun py_gt0 :: "pyval \<Rightarrow> bool" where
  "py_gt0 (PyInt n) = (0 < n)"
| "py_gt0 (PyFloat x) = float_gt0 x"
| "py_gt0 _ = False"

text \<open>
  \<open>str.strip()\<close> removes leading and trailing whitespace. Below code point 256 the
  characters Python counts as whitespace are tab, line feed, vertical tab, form feed,
  carriage return, the four separators \<open>0x1C\<close> to \<open>0x1F\<close>, space, \<open>0x85\<close> and
  \<open>0xA0\<close>.
\<close>

definition py_isspace :: "char \<Rightarrow> bool" where
  "py_isspace c =
     ((of_char c :: nat) \<in> {9, 10, 11, 12, 13, 28, 29, 30, 31, 32, 133, 160})"

definition strip :: "string \<Rightarrow> string" where
  "strip s = rev (dropWhile py_isspace (rev (dropWhile py_isspace s)))"

fun py_strip :: "pyval \<Rightarrow> py_exception + string" where
  "py_strip (PyStr s) = Inr (strip s)"
| "py_strip v =
     Inl (PyExc ''AttributeError''
       ([CHR 0x27] @ type_name v @ [CHR 0x27] @ '' object has no attribute '' @
        [CHR 0x27] @ ''strip'' @ [CHR 0x27]))"

text \<open>A dictionary with string keys, and \<open>d.get(key, default)\<close>.\<close>

type_synonym pydict = "string \<rightharpoonup> pyval"

definition dict_get :: "pydict \<Rightarrow> string \<Rightarrow> pyval \<Rightarrow> pyval" where
  "dict_get d k dflt = (case d k of None \<Rightarrow> dflt | Some v \<Rightarrow> v)"

section \<open>utils.py: segments to timeline clips\<close>

text \<open>
  A clip is the dictionary \<open>{"start": ..., "duration": ..., "subtitleText": ...}\<close>
  the converter builds; its three keys are fixed, so it is a record.
\<close>

record clip =
  start :: pyval
  duration :: pyval
  subtitleText :: string

text \<open>
  The body of the \<open>for\<close> loop of \<open>segments_to_timeline_clips\<close>, with the list
  \<open>clips\<close> built so far as accumulator: \<open>continue\<close> goes on with the same
  accumulator, \<open>clips.append\<close> extends it at the end, and an exception raised by an
  operation leaves the function at once.
\<close>

fun clips_loop :: "clip list \<Rightarrow> pydict list \<Rightarrow> py_exception + clip list" where
  "clips_loop clips [] = Inr clips"
| "clips_loop clips (seg # segs) =
     (let start_v = dict_get seg ''start'' (PyInt 0);
          end_v = dict_get seg ''end'' start_v
      in case py_sub end_v start_v of Inl e \<Rightarrow> Inl e | Inr diff \<Rightarrow>
         (case py_round3 diff of Inl e \<Rightarrow> Inl e | Inr dur \<Rightarrow>
         (case py_le0 dur of Inl e \<Rightarrow> Inl e | Inr nonpos \<Rightarrow>
            if nonpos then clips_loop clips segs
            else
         (case py_strip (dict_get seg ''text'' (PyStr [])) of Inl e \<Rightarrow> Inl e | Inr text \<Rightarrow>
            if text = [] then clips_loop clips segs
            else
         (case py_round3 start_v of Inl e \<Rightarrow> Inl e | Inr rstart \<Rightarrow>
            clips_loop
              (clips @ [\<lparr>start = rstart, duration = dur, subtitleText = text\<rparr>]) segs)))))"

definition segments_to_timeline_clips :: "pydict list \<Rightarrow> py_exception + clip list" where
  "segments_to_timeline_clips segments = clips_loop [] segments"

subsection \<open>The converter as the specification words it\<close>

text \<open>
  A segment record is a dictionary whose \<open>start\<close> and \<open>end\<close>, where present, are
  finite floats (times in seconds) and whose \<open>text\<close>, where present, is a string. Any
  of the three keys may be missing, and other keys may be present. NaN and the
  infinities are floats but no times: a dictionary that holds one of them as \<open>start\<close>
  or \<open>end\<close> is not a segment record.
\<close>

fun is_seconds :: "pyval \<Rightarrow> bool" where
  "is_seconds (PyFloat (Finite r)) = True"
| "is_seconds _ = False"

fun is_str :: "pyval \<Rightarrow> bool" where
  "is_str (PyStr s) = True"
| "is_str _ = False"

definition is_segment :: "pydict \<Rightarrow> bool" where
  "is_segment seg =
     ((case seg ''start'' of None \<Rightarrow> True | Some v \<Rightarrow> is_seconds v) \<and>
      (case seg ''end'' of None \<Rightarrow> True | Some v \<Rightarrow> is_seconds v) \<and>
      (case seg ''text'' of None \<Rightarrow> True | Some v \<Rightarrow> is_str v))"

text \<open>
  Arithmetic on numbers as total functions: what \<open>-\<close>, \<open>round(_, 3)\<close> and
  \<open><= 0\<close> compute when no operand is outside the numbers (anything else is mapped to
  \<open>PyNone\<close>, respectively \<open>False\<close>).
\<close>

fun num_sub :: "pyval \<Rightarrow> pyval \<Rightarrow> pyval" where
  "num_sub (PyInt a) (PyInt b) = PyInt (a - b)"
| "num_sub (PyFloat a) (PyFloat b) = PyFloat (float_sub a b)"
| "num_sub (PyInt a) (PyFloat b) = PyFloat (float_sub (to_double (of_int a)) b)"
| "num_sub (PyFloat a) (PyInt b) = PyFloat (float_sub a (to_double (of_int b)))"
| "num_sub _ _ = PyNone"

fun num_round3 :: "pyval \<Rightarrow> pyval" where
  "num_round3 (PyInt n) = PyInt n"
| "num_round3 (PyFloat x) = PyFloat (float_round3 x)"
| "num_round3 _ = PyNone"

fun num_le0 :: "pyval \<Rightarrow> bool" where
  "num_le0 (PyInt n) = (n \<le> 0)"
| "num_le0 (PyFloat x) = float_le0 x"
| "num_le0 _ = False"

fun str_of :: "pyval \<Rightarrow> string" where
  "str_of (PyStr s) = s"
| "str_of _ = []"

text \<open>
  What the converter reads from a segment: \<open>start\<close> (0 when the key is missing),
  \<open>end\<close> (the start when missing) and \<open>text\<close> (empty when missing), and from them
  the duration \<open>round(end - start, 3)\<close> and the trimmed text.
\<close>

definition seg_start :: "pydict \<Rightarrow> pyval" where
  "seg_start seg = dict_get seg ''start'' (PyInt 0)"

definition seg_end :: "pydict \<Rightarrow> pyval" where
  "seg_end seg = dict_get seg ''end'' (seg_start seg)"

definition seg_duration :: "pydict \<Rightarrow> pyval" where
  "seg_duration seg = num_round3 (num_sub (seg_end seg) (seg_start seg))"

definition seg_text :: "pydict \<Rightarrow> string" where
  "seg_text seg = strip (str_of (dict_get seg ''text'' (PyStr [])))"

text \<open>
  The specification's sentence for one segment: compute
  \<open>duration = round(end - start, 3)\<close>; skip if \<open>duration <= 0\<close>; trim the text and skip
  if it is empty; otherwise emit the clip. \<open>None\<close> is a skipped segment.
\<close>

definition spec_clip :: "pydict \<Rightarrow> clip option" where
  "spec_clip seg =
     (if num_le0 (seg_duration seg) then None
      else if seg_text seg = [] then None
      else Some \<lparr>start = num_round3 (seg_start seg),
                 duration = seg_duration seg,
                 subtitleText = seg_text seg\<rparr>)"

text \<open>
  The two conditions of the data model on an emitted clip, read on the segment: a
  positive duration and a text that is not blank.
\<close>

definition keeps_segment :: "pydict \<Rightarrow> bool" where
  "keeps_segment seg = (py_gt0 (seg_duration seg) \<and> seg_text seg \<noteq> [])"

text \<open>A segment with every missing key written out with its default.\<close>

definition with_defaults :: "pydict \<Rightarrow> pydict" where
  "with_defaults seg =
     (let start_v = (case seg ''start'' of None \<Rightarrow> PyInt 0 | Some v \<Rightarrow> v);
          end_v = (case seg ''end'' of None \<Rightarrow> start_v | Some v \<Rightarrow> v);
          text_v = (case seg ''text'' of None \<Rightarrow> PyStr [] | Some v \<Rightarrow> v)
      in seg(''start'' \<mapsto> start_v, ''end'' \<mapsto> end_v, ''text'' \<mapsto> text_v))"

text \<open>
  A value with at most three decimals, as far as a number of its type can have them:
  any integer, and the float nearest to \<open>k / 1000\<close> for an integer \<open>k\<close> (or an
  infinity, which a float operation can overflow to).
\<close>

definition three_decimals :: "pyval \<Rightarrow> bool" where
  "three_decimals v =
     (case v of
        PyInt n \<Rightarrow> True
      | PyFloat (Finite r) \<Rightarrow> (\<exists>k::int. Finite r = to_double (of_int k / 1000))
      | PyFloat PosInf \<Rightarrow> True
      | PyFloat NegInf \<Rightarrow> True
      | _ \<Rightarrow> False)"

section \<open>main.py: the HTTP endpoints\<close>

text \<open>JSON documents, as \<open>jsonify\<close> serialises dictionaries, lists, strings and numbers.\<close>

datatype json =
    JStr string
  | JInt int
  | JFloat pyfloat
  | JNull
  | JArr "json list"
  | JObj "(string \<times> json) list"

fun to_json :: "pyval \<Rightarrow> json" where
  "to_json (PyInt n) = JInt n"
| "to_json (PyFloat x) = JFloat x"
| "to_json (PyStr s) = JStr s"
| "to_json PyNone = JNull"

definition clip_json :: "clip \<Rightarrow> json" where
  "clip_json c =
     JObj [(''start'', to_json (start c)),
           (''duration'', to_json (duration c)),
           (''subtitleText'', JStr (subtitleText c))]"

record response =
  status :: nat
  body :: json

text \<open>
  A parsed request: the multipart file parts by field name (each with the file name the
  client sent and its bytes) and the form fields.
\<close>

record upload =
  filename :: string
  content :: string

record request =
  files :: "string \<rightharpoonup> upload"
  form :: "string \<rightharpoonup> string"

text \<open>
  What the handler prints: the two progress lines and the traceback of a caught
  exception.
\<close>

datatype log_entry =
    LogProcessing string string
  | LogDone nat
  | LogTraceback py_exception

text \<open>The state a request runs in: the files on disk (path to bytes) and the log.\<close>

type_synonym filesystem = "string \<rightharpoonup> string"

record world =
  fs :: filesystem
  log :: "log_entry list"

text \<open>
  What the code calls and does not define, as parameters: the names the temporary-file
  generator will try (directory and random part, without the suffix) and whether the
  operating system refuses to create, write or delete the file; and the transcription
  collaborator, which reads the file at a path with an optional language and returns
  segments or raises, possibly changing files on disk.
\<close>

record env =
  tmp_names :: "string list"
  create_error :: "py_exception option"
  save_error :: "py_exception option"
  unlink_error :: "py_exception option"
  transcribe :: "filesystem \<Rightarrow> string \<Rightarrow> string option \<Rightarrow>
                 (py_exception + pydict list) \<times> filesystem"

text \<open>
  \<open>os.path.splitext(p)[1]\<close> on a POSIX system: the part of \<open>p\<close> from its last dot,
  provided that dot comes after the last slash and some character between that slash
  and the dot is not a dot; otherwise the empty string.
\<close>

fun rfind :: "char \<Rightarrow> string \<Rightarrow> int" where
  "rfind c [] = - 1"
| "rfind c (x # xs) =
     (let i = rfind c xs in if 0 \<le> i then i + 1 else if x = c then 0 else - 1)"

definition splitext_ext :: "string \<Rightarrow> string" where
  "splitext_ext p =
     (let sepIndex = rfind (CHR ''/'') p;
          dotIndex = rfind (CHR ''.'') p
      in if dotIndex > sepIndex \<and>
            list_ex (\<lambda>c. c \<noteq> CHR ''.'')
              (take (nat (dotIndex - (sepIndex + 1))) (drop (nat (sepIndex + 1)) p))
         then drop (nat dotIndex) p
         else [])"

text \<open>
  \<open>tempfile.NamedTemporaryFile(delete=False, suffix=suffix)\<close>: the first generated
  name that, with the suffix, is not the name of an existing file is created empty and
  exclusively; the call raises when the system refuses or no name is free.
\<close>

definition NamedTemporaryFile ::
  "env \<Rightarrow> string \<Rightarrow> filesystem \<Rightarrow> py_exception + (string \<times> filesystem)" where
  "NamedTemporaryFile ev suffix files_on_disk =
     (case create_error ev of
        Some e \<Rightarrow> Inl e
      | None \<Rightarrow>
          (case find (\<lambda>n. files_on_disk (n @ suffix) = None) (tmp_names ev) of
             None \<Rightarrow>
               Inl (PyExc ''FileExistsError''
                 ''[Errno 17] No usable temporary file name found'')
           | Some n \<Rightarrow> Inr (n @ suffix, files_on_disk(n @ suffix \<mapsto> []))))"

text \<open>\<open>os.unlink(path)\<close>: removes the file, or raises an \<open>OSError\<close>.\<close>

definition unlink :: "env \<Rightarrow> string \<Rightarrow> filesystem \<Rightarrow> py_exception + filesystem" where
  "unlink ev path files_on_disk =
     (case unlink_error ev of
        Some e \<Rightarrow> Inl e
      | None \<Rightarrow>
          (if files_on_disk path = None
           then Inl (PyExc ''FileNotFoundError''
                  (''[Errno 2] No such file or directory: '' @ [CHR 0x27] @ path @ [CHR 0x27]))
           else Inr (files_on_disk(path := None))))"

definition json_error :: "string \<Rightarrow> json" where
  "json_error msg = JObj [(''error'', JStr msg)]"

text \<open>\<open>health\<close>: the view of \<open>GET /health\<close>.\<close>

definition health :: "world \<Rightarrow> response \<times> world" where
  "health w = (\<lparr>status = 200, body = JObj [(''status'', JStr ''ok'')]\<rparr>, w)"

text \<open>
  \<open>request.form.get("language", None) or None\<close>: the language field, an empty one
  counting as none.
\<close>

definition form_language :: "request \<Rightarrow> string option" where
  "form_language req =
     (case form req ''language'' of
        None \<Rightarrow> None
      | Some l \<Rightarrow> if l = [] then None else Some l)"

text \<open>
  The \<open>try\<close> block of \<open>handle_transcribe\<close>: save the upload, read the language field,
  transcribe, convert, answer. \<open>Inl\<close> is an exception leaving the block.
\<close>

definition transcribe_body ::
  "env \<Rightarrow> request \<Rightarrow> upload \<Rightarrow> string \<Rightarrow> string \<Rightarrow> world \<Rightarrow>
   (py_exception + response) \<times> world" where
  "transcribe_body ev req uploaded suffix tmp_name w =
     (case save_error ev of
        Some e \<Rightarrow> (Inl e, w)
      | None \<Rightarrow>
          (let w1 = w\<lparr>fs := (fs w)(tmp_name \<mapsto> content uploaded)\<rparr>;
               language = form_language req;
               w2 = w1\<lparr>log := log w1 @ [LogProcessing (filename uploaded) suffix]\<rparr>;
               (result, fs3) = transcribe ev (fs w2) tmp_name language;
               w3 = w2\<lparr>fs := fs3\<rparr>
           in case result of
                Inl e \<Rightarrow> (Inl e, w3)
              | Inr segments \<Rightarrow>
                  (case segments_to_timeline_clips segments of
                     Inl e \<Rightarrow> (Inl e, w3)
                   | Inr clips \<Rightarrow>
                       (Inr \<lparr>status = 200,
                             body = JObj [(''clips'', JArr (map clip_json clips)),
                                          (''segmentCount'', JInt (int (length clips)))]\<rparr>,
                        w3\<lparr>log := log w3 @ [LogDone (length clips)]\<rparr>))))"

text \<open>
  \<open>os.path.splitext(uploaded.filename)[1] or ".mp4"\<close>: the extension of the upload's
  name, or \<open>.mp4\<close> when it has none.
\<close>

definition temp_suffix :: "string \<Rightarrow> string" where
  "temp_suffix name = (let ext = splitext_ext name in if ext = [] then ''.mp4'' else ext)"

text \<open>
  \<open>handle_transcribe\<close>, the view of \<open>POST /transcribe\<close>. The two checks answer 400
  before anything is written. The temporary file is created before the \<open>try\<close>, so an
  exception there leaves the view (\<open>Inl\<close>). An exception inside the \<open>try\<close> is caught,
  its traceback printed, and answered with 500. The \<open>finally\<close> clause then unlinks the
  file, and an \<open>OSError\<close> from that is dropped.
\<close>

definition handle_transcribe ::
  "env \<Rightarrow> request \<Rightarrow> world \<Rightarrow> (py_exception + response) \<times> world" where
  "handle_transcribe ev req w =
     (case files req ''file'' of
        None \<Rightarrow>
          (Inr \<lparr>status = 400,
                body = json_error
                  (''No file provided. Send a file with key '' @ [CHR 0x27] @ ''file'' @
                   [CHR 0x27] @ ''.'')\<rparr>, w)
      | Some uploaded \<Rightarrow>
          if filename uploaded = [] then
            (Inr \<lparr>status = 400, body = json_error ''Empty filename.''\<rparr>, w)
          else
            (let suffix = temp_suffix (filename uploaded)
             in case NamedTemporaryFile ev suffix (fs w) of
                  Inl e \<Rightarrow> (Inl e, w)
                | Inr (tmp_name, fs1) \<Rightarrow>
                    (let (result, w2) =
                           transcribe_body ev req uploaded suffix tmp_name (w\<lparr>fs := fs1\<rparr>);
                         (answer, w3) =
                           (case result of
                              Inr resp \<Rightarrow> (resp, w2)
                            | Inl exc \<Rightarrow>
                                (\<lparr>status = 500,
                                  body = json_error (''Transcription failed: '' @ exc_str exc)\<rparr>,
                                 w2\<lparr>log := log w2 @ [LogTraceback exc]\<rparr>));
                         w4 = (case unlink ev tmp_name (fs w3) of
                                 Inl e \<Rightarrow> w3
                               | Inr fs4 \<Rightarrow> w3\<lparr>fs := fs4\<rparr>)
                     in (Inr answer, w4))))"

text \<open>
  Collaborators for worked examples: one finds two segments, the second of them without
  duration, and leaves the disk alone; the other one's model fails.
\<close>

definition two_segment_transcriber ::
  "filesystem \<Rightarrow> string \<Rightarrow> string option \<Rightarrow> (py_exception + pydict list) \<times> filesystem" where
  "two_segment_transcriber files_on_disk path language =
     (Inr [[''start'' \<mapsto> PyFloat (to_double (12 / 10)),
            ''end'' \<mapsto> PyFloat (to_double (37 / 10)),
            ''text'' \<mapsto> PyStr '' Hello world ''],
           [''start'' \<mapsto> PyFloat (to_double (37 / 10)),
            ''end'' \<mapsto> PyFloat (to_double (37 / 10)),
            ''text'' \<mapsto> PyStr ''x'']], files_on_disk)"


definition empty_disk :: filesystem where
  "empty_disk = Map.empty"

definition clip_upload :: "string \<rightharpoonup> upload" where
  "clip_upload = [''file'' \<mapsto> \<lparr>filename = ''clip.mov'', content = ''bytes''\<rparr>]"

definition no_fields :: "string \<rightharpoonup> string" where
  "no_fields = Map.empty"

definition example_env :: env where
  "example_env =
     \<lparr>tmp_names = [''/tmp/tmpk3x9q2aa''], create_error = None, save_error = None,
      unlink_error = None, transcribe = two_segment_transcriber\<rparr>"

definition example_request :: request where
  "example_request = \<lparr>files = clip_upload, form = no_fields\<rparr>"

definition example_world :: world where
  "example_world = \<lparr>fs = empty_disk, log = []\<rparr>"






section \<open>Properties of the converter\<close>

subsection \<open>Segment records never raise\<close>

lemma to_double_zero: "to_double 0 = Finite 0"
  by (simp add: to_double_def)

lemma int_to_float_zero: "int_to_float 0 = Inr (Finite 0)"
  by (simp add: int_to_float_def to_double_zero)

lemma is_seconds_cases: "is_seconds v \<Longrightarrow> \<exists>r. v = PyFloat (Finite r)"
  by (cases v rule: is_seconds.cases) auto

lemma start_value_cases:
  assumes "is_segment seg"
  shows "dict_get seg ''start'' (PyInt 0) = PyInt 0 \<or>
         (\<exists>r. dict_get seg ''start'' (PyInt 0) = PyFloat (Finite r))"
  using assms
  by (auto simp: is_segment_def dict_get_def split: option.splits dest: is_seconds_cases)

lemma end_value_cases:
  assumes "is_segment seg"
  shows "dict_get seg ''end'' d = d \<or> (\<exists>r. dict_get seg ''end'' d = PyFloat (Finite r))"
  using assms
  by (auto simp: is_segment_def dict_get_def split: option.splits dest: is_seconds_cases)

lemma text_value_cases:
  assumes "is_segment seg"
  shows "\<exists>s. dict_get seg ''text'' (PyStr []) = PyStr s"
  using assms
  by (cases "seg ''text''") (auto simp: is_segment_def dict_get_def elim: is_str.elims)

lemma py_sub_segment:
  assumes "a = PyInt 0 \<or> (\<exists>r. a = PyFloat (Finite r))"
    and "b = PyInt 0 \<or> (\<exists>r. b = PyFloat (Finite r))"
  shows "py_sub a b = Inr (num_sub a b)"
  using assms by (auto simp: int_to_float_zero to_double_zero)

lemma num_sub_is_num:
  assumes "a = PyInt 0 \<or> (\<exists>r. a = PyFloat (Finite r))"
    and "b = PyInt 0 \<or> (\<exists>r. b = PyFloat (Finite r))"
  shows "(\<exists>n. num_sub a b = PyInt n) \<or> (\<exists>x. num_sub a b = PyFloat x)"
  using assms by auto

lemma py_round3_num:
  "(\<exists>n. v = PyInt n) \<or> (\<exists>x. v = PyFloat x) \<Longrightarrow> py_round3 v = Inr (num_round3 v)"
  by auto

lemma num_round3_is_num:
  "(\<exists>n. v = PyInt n) \<or> (\<exists>x. v = PyFloat x) \<Longrightarrow>
   (\<exists>n. num_round3 v = PyInt n) \<or> (\<exists>x. num_round3 v = PyFloat x)"
  by auto

lemma py_le0_num:
  "(\<exists>n. v = PyInt n) \<or> (\<exists>x. v = PyFloat x) \<Longrightarrow> py_le0 v = Inr (num_le0 v)"
  by auto

text \<open>One turn of the loop on a segment record does what the specification's sentence says.\<close>

lemma clips_loop_step:
  assumes "is_segment seg"
  shows "clips_loop acc (seg # segs) =
     (case spec_clip seg of
        None \<Rightarrow> clips_loop acc segs
      | Some c \<Rightarrow> clips_loop (acc @ [c]) segs)"
proof -
  let ?s = "seg_start seg"
  let ?e = "seg_end seg"
  have s: "?s = PyInt 0 \<or> (\<exists>r. ?s = PyFloat (Finite r))"
    using start_value_cases [OF assms] by (simp add: seg_start_def)
  have e: "?e = PyInt 0 \<or> (\<exists>r. ?e = PyFloat (Finite r))"
    using end_value_cases [OF assms, of ?s] s by (auto simp: seg_end_def)
  have sub: "py_sub ?e ?s = Inr (num_sub ?e ?s)"
    using e s by (rule py_sub_segment)
  have n1: "(\<exists>n. num_sub ?e ?s = PyInt n) \<or> (\<exists>x. num_sub ?e ?s = PyFloat x)"
    using e s by (rule num_sub_is_num)
  have rnd: "py_round3 (num_sub ?e ?s) = Inr (num_round3 (num_sub ?e ?s))"
    using n1 by (rule py_round3_num)
  have le: "py_le0 (num_round3 (num_sub ?e ?s)) = Inr (num_le0 (num_round3 (num_sub ?e ?s)))"
    using num_round3_is_num [OF n1] by (rule py_le0_num)
  have rs: "py_round3 ?s = Inr (num_round3 ?s)"
    using s by auto
  obtain t where t: "dict_get seg ''text'' (PyStr []) = PyStr t"
    using text_value_cases [OF assms] by blast
  have unfold: "dict_get seg ''start'' (PyInt 0) = ?s"
    "dict_get seg ''end'' ?s = ?e"
    by (simp_all add: seg_start_def seg_end_def)
  show ?thesis
    by (simp add: Let_def unfold sub rnd le rs t spec_clip_def seg_duration_def seg_text_def)
qed

lemma clips_loop_segments:
  "list_all is_segment segs \<Longrightarrow>
   clips_loop acc segs = Inr (acc @ List.map_filter spec_clip segs)"
proof (induction segs arbitrary: acc)
  case Nil
  then show ?case by (simp add: map_filter_simps)
next
  case (Cons seg segs)
  then show ?case
    by (simp add: clips_loop_step map_filter_simps del: clips_loop.simps split: option.split)
qed

lemma converter_on_segments:
  "list_all is_segment segs \<Longrightarrow>
   segments_to_timeline_clips segs = Inr (List.map_filter spec_clip segs)"
  by (simp add: segments_to_timeline_clips_def clips_loop_segments)

subsection \<open>The converter follows the specification\<close>

text \<open>
  Claim C1. For every list of segment records the converter goes through the segments
  in input order and does, for each one, what the specification says: it computes
  \<open>duration = round(end - start, 3)\<close>, skips the segment if \<open>duration <= 0\<close>, trims
  the text and skips the segment if nothing is left, and otherwise emits
  \<open>{start: round(start, 3), duration, subtitleText}\<close>. The result is the list of the
  clips of the segments that are not skipped, in the order of their segments.
\<close>

theorem segments_to_timeline_clips_spec:
  assumes "list_all is_segment segs"
  shows "segments_to_timeline_clips segs = Inr (List.map_filter spec_clip segs)"
  using assms by (simp add: segments_to_timeline_clips_def clips_loop_segments)


subsection \<open>Durations of segment records are numbers, never NaN\<close>

lemma to_double_cases:
  "(\<exists>v. to_double r = Finite v) \<or> to_double r = PosInf \<or> to_double r = NegInf"
  by (simp add: to_double_def Let_def)

lemma round_half_even_zero: "round_half_even 0 = 0"
  by (simp add: round_half_even_def)

lemma float_round3_zero: "float_round3 (Finite 0) = Finite 0"
  by (simp add: round_half_even_zero to_double_zero)

lemma nan_neither_nonpositive_nor_positive:
  "py_le0 (PyFloat NaN) = Inr False" "\<not> py_gt0 (PyFloat NaN)"
  by simp_all

lemma float_gt0_iff: "x \<noteq> NaN \<Longrightarrow> float_gt0 x = (\<not> float_le0 x)"
  by (cases x) auto

lemma float_round3_to_double_cases:
  "(\<exists>k. float_round3 (to_double r) = to_double (of_int k / 1000)) \<or>
   float_round3 (to_double r) = PosInf \<or> float_round3 (to_double r) = NegInf"
  using to_double_cases [of r] by auto

lemma float_round3_to_double_not_nan: "float_round3 (to_double r) \<noteq> NaN"
  using to_double_cases [of r]
    to_double_cases [of "of_int (round_half_even (v * 1000)) / 1000" for v]
  by (auto simp del: of_int_eq_iff) (metis pyfloat.distinct(5,9,11))

lemma three_decimals_to_double: "three_decimals (PyFloat (to_double (of_int k / 1000)))"
proof (cases "to_double (of_int k / 1000)")
  case (Finite v)
  then have "\<exists>j::int. Finite v = to_double (of_int j / 1000)"
    by (intro exI [of _ k]) simp
  with Finite show ?thesis by (simp add: three_decimals_def)
next
  case PosInf
  then show ?thesis by (simp add: three_decimals_def)
next
  case NegInf
  then show ?thesis by (simp add: three_decimals_def)
next
  case NaN
  then show ?thesis using to_double_cases [of "of_int k / 1000"] by simp
qed

lemma three_decimals_round3: "three_decimals (PyFloat (float_round3 (to_double r)))"
  using float_round3_to_double_cases [of r]
  by (auto simp: three_decimals_to_double) (simp_all add: three_decimals_def)

lemma segment_values:
  assumes "is_segment seg"
  shows "seg_start seg = PyInt 0 \<or> (\<exists>r. seg_start seg = PyFloat (Finite r))"
    and "seg_end seg = PyInt 0 \<or> (\<exists>r. seg_end seg = PyFloat (Finite r))"
proof -
  show s: "seg_start seg = PyInt 0 \<or> (\<exists>r. seg_start seg = PyFloat (Finite r))"
    using start_value_cases [OF assms] by (simp add: seg_start_def)
  show "seg_end seg = PyInt 0 \<or> (\<exists>r. seg_end seg = PyFloat (Finite r))"
    using end_value_cases [OF assms, of "seg_start seg"] s by (auto simp: seg_end_def)
qed

lemma num_sub_segment_cases:
  assumes "a = PyInt 0 \<or> (\<exists>r. a = PyFloat (Finite r))"
    and "b = PyInt 0 \<or> (\<exists>r. b = PyFloat (Finite r))"
  shows "num_sub a b = PyInt 0 \<or> (\<exists>r. num_sub a b = PyFloat (to_double r))"
  using assms by (auto simp: to_double_zero)

lemma seg_duration_cases:
  assumes "is_segment seg"
  shows "seg_duration seg = PyInt 0 \<or>
         (\<exists>r. seg_duration seg = PyFloat (float_round3 (to_double r)))"
  using num_sub_segment_cases [OF segment_values(2) [OF assms] segment_values(1) [OF assms]]
  by (auto simp: seg_duration_def)

lemma seg_duration_sign:
  assumes "is_segment seg"
  shows "py_gt0 (seg_duration seg) = (\<not> num_le0 (seg_duration seg))"
  using seg_duration_cases [OF assms]
  by (auto simp: float_gt0_iff float_round3_to_double_not_nan)

lemma spec_clip_keeps:
  assumes "is_segment seg"
  shows "(spec_clip seg \<noteq> None) = keeps_segment seg"
  by (simp add: spec_clip_def keeps_segment_def seg_duration_sign [OF assms])

lemma spec_clip_fields:
  assumes "spec_clip seg = Some c"
  shows "start c = num_round3 (seg_start seg)"
    and "duration c = seg_duration seg"
    and "subtitleText c = seg_text seg"
    and "\<not> num_le0 (seg_duration seg)"
    and "seg_text seg \<noteq> []"
  using assms by (auto simp: spec_clip_def split: if_splits)

lemma map_filter_member:
  "c \<in> set (List.map_filter f xs) \<Longrightarrow> \<exists>x\<in>set xs. f x = Some c"
  by (induction xs) (auto simp: map_filter_simps split: option.splits)

lemma map_filter_filter:
  "(\<And>x. x \<in> set xs \<Longrightarrow> \<not> P x \<Longrightarrow> f x = None) \<Longrightarrow>
   List.map_filter f (filter P xs) = List.map_filter f xs"
  by (induction xs) (auto simp: map_filter_simps split: option.splits)

lemma map_filter_length:
  "(\<And>x. x \<in> set xs \<Longrightarrow> (f x \<noteq> None) = P x) \<Longrightarrow>
   length (List.map_filter f xs) = length (filter P xs)"
proof (induction xs)
  case Nil
  then show ?case by (simp add: map_filter_simps)
next
  case (Cons x xs)
  have "(f x \<noteq> None) = P x" using Cons.prems [of x] by simp
  moreover have "length (List.map_filter f xs) = length (filter P xs)"
    using Cons by simp
  ultimately show ?case by (cases "f x") (auto simp: map_filter_simps)
qed

lemma list_all_filter: "list_all P xs \<Longrightarrow> list_all P (filter Q xs)"
  by (induction xs) auto

subsection \<open>Emitted clips\<close>

text \<open>
  Claim C2. For every list of segment records, every clip the converter emits has a
  duration greater than 0 and a text that is not empty. A segment that violates either
  condition is dropped silently: no exception is raised, and the result is the one the
  converter gives on the list without those segments, one clip for each segment kept.
\<close>

theorem emitted_clips_positive_nonempty:
  assumes "list_all is_segment segs"
  shows "\<exists>clips. segments_to_timeline_clips segs = Inr clips \<and>
           (\<forall>c\<in>set clips. py_gt0 (duration c) \<and> subtitleText c \<noteq> []) \<and>
           segments_to_timeline_clips (filter keeps_segment segs) = Inr clips \<and>
           length clips = length (filter keeps_segment segs)"
proof -
  let ?clips = "List.map_filter spec_clip segs"
  have seg: "\<And>x. x \<in> set segs \<Longrightarrow> is_segment x"
    using assms by (simp add: list_all_iff)
  have run: "segments_to_timeline_clips segs = Inr ?clips"
    using assms by (rule converter_on_segments)
  have inv: "\<forall>c\<in>set ?clips. py_gt0 (duration c) \<and> subtitleText c \<noteq> []"
  proof
    fix c assume "c \<in> set ?clips"
    then obtain x where x: "x \<in> set segs" "spec_clip x = Some c"
      using map_filter_member by fastforce
    from x(2) have "duration c = seg_duration x" "subtitleText c = seg_text x"
      "\<not> num_le0 (seg_duration x)" "seg_text x \<noteq> []"
      by (rule spec_clip_fields)+
    then show "py_gt0 (duration c) \<and> subtitleText c \<noteq> []"
      using seg_duration_sign [OF seg [OF x(1)]] by simp
  qed
  have dropped: "\<And>x. x \<in> set segs \<Longrightarrow> \<not> keeps_segment x \<Longrightarrow> spec_clip x = None"
    using spec_clip_keeps [OF seg] by blast
  have "segments_to_timeline_clips (filter keeps_segment segs) =
        Inr (List.map_filter spec_clip (filter keeps_segment segs))"
    using list_all_filter [OF assms] by (rule converter_on_segments)
  then have filtered: "segments_to_timeline_clips (filter keeps_segment segs) = Inr ?clips"
    using map_filter_filter [of segs keeps_segment spec_clip] dropped by simp
  have len: "length ?clips = length (filter keeps_segment segs)"
    using spec_clip_keeps [OF seg] by (rule map_filter_length)
  show ?thesis using run inv filtered len by blast
qed

section \<open>Properties of the float model\<close>

subsection \<open>The binary exponent\<close>

lemma pow2_power_int: "pow2 k = power_int 2 k"
  by (simp add: pow2_def power_int_def inverse_eq_divide power_one_over)

lemma pow2_pos: "0 < pow2 k"
  by (simp add: pow2_def)

lemma pow2_add: "pow2 (a + b) = pow2 a * pow2 b"
  by (simp add: pow2_power_int power_int_add)

lemma pow2_diff_nat: "pow2 (int a - int b) = 2 ^ a / 2 ^ b"
  by (simp add: pow2_power_int power_int_diff)

lemma pow2_mono: "a \<le> b \<Longrightarrow> pow2 a \<le> pow2 b"
  by (simp add: pow2_power_int power_int_increasing)

lemma pow2_succ: "pow2 (k + 1) = 2 * pow2 k"
proof -
  have "pow2 1 = 2" by (simp add: pow2_def)
  then show ?thesis by (simp add: pow2_add)
qed

lemma bit_length_bounds:
  "0 < n \<Longrightarrow> 2 ^ (bit_length n - 1) \<le> n \<and> n < 2 ^ bit_length n"
proof (induction n rule: bit_length.induct)
  case (1 n)
  show ?case
  proof (cases "n = 1")
    case True
    then show ?thesis by (simp add: bit_length.simps [of 1] bit_length.simps [of 0])
  next
    case False
    with 1 have "0 < n div 2" by simp
    with 1 have ih: "2 ^ (bit_length (n div 2) - 1) \<le> n div 2 \<and> n div 2 < 2 ^ bit_length (n div 2)"
      by simp
    have bl: "bit_length n = Suc (bit_length (n div 2))"
      using 1(2) by (simp add: bit_length.simps [of n])
    have pos: "0 < bit_length (n div 2)"
      using \<open>0 < n div 2\<close> by (simp add: bit_length.simps [of "n div 2"])
    then obtain k where k: "bit_length (n div 2) = Suc k" by (cases "bit_length (n div 2)") auto
    from ih k have "2 ^ k \<le> n div 2" "n div 2 < 2 * 2 ^ k" by simp_all
    then have "2 * 2 ^ k \<le> n" "n < 2 * (2 * 2 ^ k)" by linarith+
    then show ?thesis by (simp add: bl k)
  qed
qed

lemma bit_length_pos: "0 < n \<Longrightarrow> 0 < bit_length n"
  by (simp add: bit_length.simps [of n])

lemma ilog2_bounds:
  assumes "r \<noteq> 0"
  shows "pow2 (ilog2 r) \<le> \<bar>r\<bar> \<and> \<bar>r\<bar> < pow2 (ilog2 r + 1)"
proof -
  obtain p q where pq: "quotient_of r = (p, q)" by (cases "quotient_of r")
  then have q: "0 < q" and r: "r = of_int p / of_int q"
    by (simp_all add: quotient_of_denom_pos quotient_of_div)
  from assms r have p: "0 < \<bar>p\<bar>" by auto
  define bp where "bp = bit_length \<bar>p\<bar>"
  define bq where "bq = bit_length q"
  have bp: "2 ^ (bp - 1) \<le> \<bar>p\<bar>" "\<bar>p\<bar> < 2 ^ bp" "0 < bp"
    using bit_length_bounds [OF p] bit_length_pos [OF p] by (simp_all add: bp_def)
  have bq: "2 ^ (bq - 1) \<le> q" "q < 2 ^ bq" "0 < bq"
    using bit_length_bounds [OF q] bit_length_pos [OF q] by (simp_all add: bq_def)
  have absr: "\<bar>r\<bar> = of_int \<bar>p\<bar> / of_int q"
    using q by (simp add: r)
  have qpos: "(0::rat) < of_int q" using q by simp
  have lo: "pow2 (int bp - int bq - 1) \<le> \<bar>r\<bar>"
  proof -
    have "int bp - int bq - 1 = int (bp - 1) - int bq"
      using bp(3) by (simp add: of_nat_diff)
    then have "pow2 (int bp - int bq - 1) = pow2 (int (bp - 1) - int bq)"
      by (rule arg_cong)
    also have "\<dots> = 2 ^ (bp - 1) / 2 ^ bq" by (rule pow2_diff_nat)
    also have "\<dots> \<le> of_int \<bar>p\<bar> / 2 ^ bq"
    proof -
      have "(2::rat) ^ (bp - 1) \<le> of_int \<bar>p\<bar>"
        using bp(1) of_int_le_iff [of "2 ^ (bp - 1)" "\<bar>p\<bar>", where ?'a = rat] by simp
      then show ?thesis by (simp add: divide_right_mono)
    qed
    also have "\<dots> \<le> of_int \<bar>p\<bar> / of_int q"
    proof -
      have "of_int q \<le> (2::rat) ^ bq"
        using bq(2) of_int_less_iff [of q "2 ^ bq", where ?'a = rat] by simp
      then show ?thesis using qpos by (simp add: divide_left_mono)
    qed
    finally show ?thesis by (simp add: absr)
  qed
  have hi: "\<bar>r\<bar> < pow2 (int bp - int bq + 1)"
  proof -
    have "of_int \<bar>p\<bar> < (2::rat) ^ bp"
      using bp(2) of_int_less_iff [of "\<bar>p\<bar>" "2 ^ bp", where ?'a = rat] by simp
    then have "\<bar>r\<bar> < 2 ^ bp / of_int q"
      using qpos by (simp add: absr divide_strict_right_mono)
    also have "\<dots> \<le> 2 ^ bp / 2 ^ (bq - 1)"
    proof -
      have "(2::rat) ^ (bq - 1) \<le> of_int q"
        using bq(1) of_int_le_iff [of "2 ^ (bq - 1)" q, where ?'a = rat] by simp
      then show ?thesis using qpos by (intro divide_left_mono) simp_all
    qed
    also have "\<dots> = pow2 (int bp - int (bq - 1))" by (rule pow2_diff_nat [symmetric])
    also have "\<dots> = pow2 (int bp - int bq + 1)"
    proof -
      have "int bp - int (bq - 1) = int bp - int bq + 1"
        using bq(3) by (simp add: of_nat_diff)
      then show ?thesis by (rule arg_cong)
    qed
    finally show ?thesis .
  qed
  have il: "ilog2 r = (if pow2 (int bp - int bq) \<le> \<bar>r\<bar> then int bp - int bq else int bp - int bq - 1)"
    by (simp add: ilog2_def pq bp_def bq_def Let_def)
  show ?thesis
  proof (cases "pow2 (int bp - int bq) \<le> \<bar>r\<bar>")
    case True
    then show ?thesis using hi by (simp add: il)
  next
    case False
    then show ?thesis using lo by (simp add: il)
  qed
qed

lemma ilog2_unique:
  assumes "pow2 e \<le> \<bar>r\<bar>" "\<bar>r\<bar> < pow2 (e + 1)"
  shows "ilog2 r = e"
proof -
  have "r \<noteq> 0" using assms(1) pow2_pos [of e] by auto
  then have b: "pow2 (ilog2 r) \<le> \<bar>r\<bar>" "\<bar>r\<bar> < pow2 (ilog2 r + 1)"
    using ilog2_bounds by simp_all
  have "\<not> e < ilog2 r"
  proof
    assume "e < ilog2 r"
    then have "pow2 (e + 1) \<le> pow2 (ilog2 r)" by (simp add: pow2_mono)
    with b(1) assms(2) show False by simp
  qed
  moreover have "\<not> ilog2 r < e"
  proof
    assume "ilog2 r < e"
    then have "pow2 (ilog2 r + 1) \<le> pow2 e" by (simp add: pow2_mono)
    with b(2) assms(1) show False by simp
  qed
  ultimately show ?thesis by simp
qed

subsection \<open>Evaluating a rounding\<close>

lemma round_half_even_frac:
  assumes "0 < b"
  shows "round_half_even (of_int a / of_int b) =
     (if 2 * (a mod b) < b then a div b
      else if b < 2 * (a mod b) then a div b + 1
      else if even (a div b) then a div b else a div b + 1)"
proof -
  have fl: "\<lfloor>(of_int a :: rat) / of_int b\<rfloor> = a div b"
    by (rule floor_divide_of_int_eq)
  have bpos: "(0::rat) < of_int b" using assms by simp
  have "(of_int a :: rat) = of_int (a div b * b + a mod b)" by simp
  also have "\<dots> = of_int (a div b) * of_int b + of_int (a mod b)"
    by (simp only: of_int_add of_int_mult)
  finally have "(of_int a :: rat) / of_int b =
      (of_int (a div b) * of_int b + of_int (a mod b)) / of_int b"
    by (rule arg_cong)
  also have "\<dots> = of_int (a div b) + of_int (a mod b) / of_int b"
    using bpos by (simp add: add_divide_distrib)
  finally have "(of_int a :: rat) / of_int b = of_int (a div b) + of_int (a mod b) / of_int b" .
  then have d: "(of_int a :: rat) / of_int b - of_int (a div b) = of_int (a mod b) / of_int b"
    by simp
  have lt: "(of_int (a mod b) / of_int b < (1::rat) / 2) = (2 * (a mod b) < b)"
  proof -
    have "(of_int (a mod b) / of_int b < (1::rat) / 2) = ((of_int (2 * (a mod b)) :: rat) < of_int b)"
      using bpos by (simp add: field_simps)
    also have "\<dots> = (2 * (a mod b) < b)" by (simp only: of_int_less_iff)
    finally show ?thesis .
  qed
  have gt: "((1::rat) / 2 < of_int (a mod b) / of_int b) = (b < 2 * (a mod b))"
  proof -
    have "((1::rat) / 2 < of_int (a mod b) / of_int b) = ((of_int b :: rat) < of_int (2 * (a mod b)))"
      using bpos by (simp add: field_simps)
    also have "\<dots> = (b < 2 * (a mod b))" by (simp only: of_int_less_iff)
    finally show ?thesis .
  qed
  show ?thesis
    unfolding round_half_even_def Let_def fl d lt gt by (rule refl)
qed

lemma round_half_even_of_int: "round_half_even (of_int n) = n"
  by (simp add: round_half_even_def)

lemma to_double_eval:
  assumes "pow2 e \<le> \<bar>r\<bar>" and "\<bar>r\<bar> < pow2 (e + 1)"
  shows "to_double r =
     (let e' = max e (- 1022);
          ulp = pow2 (e' - 52);
          v = of_int (round_half_even (r / ulp)) * ulp
      in if pow2 1024 \<le> \<bar>v\<bar> then (if 0 < r then PosInf else NegInf) else Finite v)"
proof -
  have "r \<noteq> 0" using assms(1) pow2_pos [of e] by auto
  moreover have "ilog2 r = e" using assms by (rule ilog2_unique)
  ultimately show ?thesis by (simp add: to_double_def)
qed

text \<open>
  The float nearest to a fraction \<open>a / b\<close> whose binary exponent \<open>e\<close> is known and in
  the normal range: the significand is an integer division rounded to even.
\<close>

lemma to_double_frac:
  assumes "0 < b"
    and "pow2 e \<le> \<bar>of_int a / of_int b\<bar>"
    and "\<bar>of_int a / of_int b\<bar> < pow2 (e + 1)"
    and "- 1022 \<le> e" and "e \<le> 52"
  shows "to_double (of_int a / of_int b) =
     (let n = a * 2 ^ nat (52 - e);
          m = (if 2 * (n mod b) < b then n div b
               else if b < 2 * (n mod b) then n div b + 1
               else if even (n div b) then n div b else n div b + 1);
          v = of_int m / 2 ^ nat (52 - e)
      in if pow2 1024 \<le> \<bar>v\<bar>
         then (if 0 < (of_int a / of_int b :: rat) then PosInf else NegInf)
         else Finite v)"
proof -
  define s where "s = nat (52 - e)"
  define n where "n = a * 2 ^ s"
  define m where "m = (if 2 * (n mod b) < b then n div b
               else if b < 2 * (n mod b) then n div b + 1
               else if even (n div b) then n div b else n div b + 1)"
  have ulp: "pow2 (e - 52) = 1 / 2 ^ s"
  proof (cases "e = 52")
    case True
    then show ?thesis by (simp add: pow2_def s_def)
  next
    case False
    with assms(5) have "e - 52 < 0" by simp
    then show ?thesis by (simp add: pow2_def s_def)
  qed
  have q: "(of_int a / of_int b :: rat) / pow2 (e - 52) = of_int n / of_int b"
    by (simp add: ulp n_def)
  have r: "round_half_even ((of_int a / of_int b :: rat) / pow2 (e - 52)) = m"
    unfolding q m_def by (rule round_half_even_frac [OF assms(1)])
  have mx: "max e (- 1022) = e" using assms(4) by simp
  have v: "of_int m * pow2 (e - 52) = (of_int m / 2 ^ s :: rat)"
    by (simp add: ulp)
  have "to_double (of_int a / of_int b) =
     (if pow2 1024 \<le> \<bar>of_int m / 2 ^ s :: rat\<bar>
      then (if 0 < (of_int a / of_int b :: rat) then PosInf else NegInf)
      else Finite (of_int m / 2 ^ s))"
    by (simp only: to_double_eval [OF assms(2,3)] Let_def mx r v)
  then show ?thesis
    by (simp only: Let_def m_def n_def s_def)
qed

subsection \<open>The floats of the specification's scenario\<close>

text \<open>
  The literals \<open>1.2\<close> and \<open>3.7\<close> are the floats nearest to \<open>6 / 5\<close> and \<open>37 / 10\<close>.
  Their exact difference lies half way between \<open>2.5\<close> and the next float, and the tie
  goes to the even significand: \<open>3.7 - 1.2\<close> is \<open>2.5\<close>.
\<close>

lemma double_6_5: "to_double (6 / 5) = Finite (5404319552844595 / 4503599627370496)"
  using to_double_frac [of 5 0 6] by (simp add: pow2_def Let_def)

lemma double_37_10: "to_double (37 / 10) = Finite (4165829655317709 / 1125899906842624)"
  using to_double_frac [of 10 1 37] by (simp add: pow2_def Let_def)

lemma double_5_2: "to_double (5 / 2) = Finite (5 / 2)"
  using to_double_frac [of 2 1 5] by (simp add: pow2_def Let_def)

lemma double_sub_37_12:
  "to_double (11258999068426241 / 4503599627370496) = Finite (5 / 2)"
  using to_double_frac [of 4503599627370496 1 11258999068426241]
  by (simp add: pow2_def Let_def)

text \<open>The literal \<open>0.1\<close>, the best known float.\<close>

lemma double_tenth: "to_double (1 / 10) = Finite (3602879701896397 / 36028797018963968)"
  using to_double_frac [of 10 "- 4" 1] by (simp add: pow2_def Let_def)

lemma sub_37_12: "float_sub (to_double (37 / 10)) (to_double (6 / 5)) = Finite (5 / 2)"
  by (simp add: double_37_10 double_6_5 double_sub_37_12)

lemma rhe_12: "round_half_even (675539944105574375 / 562949953421312) = 1200"
  using round_half_even_frac [of 562949953421312 675539944105574375] by simp

lemma round3_12: "float_round3 (to_double (6 / 5)) = to_double (6 / 5)"
  by (simp add: double_6_5 rhe_12)

lemma rhe_25: "round_half_even 2500 = 2500"
  using round_half_even_of_int [of 2500] by simp

lemma round3_25: "float_round3 (Finite (5 / 2)) = Finite (5 / 2)"
  by (simp add: rhe_25 double_5_2)

lemma strip_hello: "strip '' Hello world '' = ''Hello world''"
  by (simp add: strip_def py_isspace_def)

lemma scenario_loop:
  "clips_loop []
     [[''start'' \<mapsto> PyFloat (to_double (12 / 10)),
       ''end'' \<mapsto> PyFloat (to_double (37 / 10)),
       ''text'' \<mapsto> PyStr '' Hello world '']] =
   Inr [\<lparr>start = PyFloat (to_double (12 / 10)),
         duration = PyFloat (to_double (25 / 10)),
         subtitleText = ''Hello world''\<rparr>]"
  by (simp add: dict_get_def sub_37_12 round3_25 round3_12 strip_hello double_5_2
      del: float_round3.simps float_sub.simps)

section \<open>Further properties of the converter\<close>

theorem emitted_clips_positive_nonempty_witness:
  "list_all is_segment
     [[''start'' \<mapsto> PyFloat (to_double (12 / 10)), ''end'' \<mapsto> PyFloat (to_double (37 / 10)),
       ''text'' \<mapsto> PyStr '' Hello world ''],
      [''start'' \<mapsto> PyFloat (Finite 5), ''end'' \<mapsto> PyFloat (Finite 5), ''text'' \<mapsto> PyStr ''x''],
      [''start'' \<mapsto> PyFloat (Finite 0), ''end'' \<mapsto> PyFloat (Finite 1), ''text'' \<mapsto> PyStr ''   '']] \<and>
   (\<exists>clips.
      segments_to_timeline_clips
        [[''start'' \<mapsto> PyFloat (to_double (12 / 10)), ''end'' \<mapsto> PyFloat (to_double (37 / 10)),
          ''text'' \<mapsto> PyStr '' Hello world ''],
         [''start'' \<mapsto> PyFloat (Finite 5), ''end'' \<mapsto> PyFloat (Finite 5), ''text'' \<mapsto> PyStr ''x''],
         [''start'' \<mapsto> PyFloat (Finite 0), ''end'' \<mapsto> PyFloat (Finite 1), ''text'' \<mapsto> PyStr ''   '']] =
      Inr clips \<and>
      (\<forall>c\<in>set clips. py_gt0 (duration c) \<and> subtitleText c \<noteq> []) \<and>
      segments_to_timeline_clips
        (filter keeps_segment
          [[''start'' \<mapsto> PyFloat (to_double (12 / 10)), ''end'' \<mapsto> PyFloat (to_double (37 / 10)),
            ''text'' \<mapsto> PyStr '' Hello world ''],
           [''start'' \<mapsto> PyFloat (Finite 5), ''end'' \<mapsto> PyFloat (Finite 5), ''text'' \<mapsto> PyStr ''x''],
           [''start'' \<mapsto> PyFloat (Finite 0), ''end'' \<mapsto> PyFloat (Finite 1), ''text'' \<mapsto> PyStr ''   '']]) =
      Inr clips \<and>
      length clips =
      length (filter keeps_segment
          [[''start'' \<mapsto> PyFloat (to_double (12 / 10)), ''end'' \<mapsto> PyFloat (to_double (37 / 10)),
            ''text'' \<mapsto> PyStr '' Hello world ''],
           [''start'' \<mapsto> PyFloat (Finite 5), ''end'' \<mapsto> PyFloat (Finite 5), ''text'' \<mapsto> PyStr ''x''],
           [''start'' \<mapsto> PyFloat (Finite 0), ''end'' \<mapsto> PyFloat (Finite 1), ''text'' \<mapsto> PyStr ''   '']]))"
proof -
  have h: "list_all is_segment
     [[''start'' \<mapsto> PyFloat (to_double (12 / 10)), ''end'' \<mapsto> PyFloat (to_double (37 / 10)),
       ''text'' \<mapsto> PyStr '' Hello world ''],
      [''start'' \<mapsto> PyFloat (Finite 5), ''end'' \<mapsto> PyFloat (Finite 5), ''text'' \<mapsto> PyStr ''x''],
      [''start'' \<mapsto> PyFloat (Finite 0), ''end'' \<mapsto> PyFloat (Finite 1), ''text'' \<mapsto> PyStr ''   '']]"
    by (simp add: is_segment_def double_6_5 double_37_10)
  show ?thesis
    using h emitted_clips_positive_nonempty [OF h] by (rule conjI)
qed


text \<open>
  Claim C6. Every clip emitted for a list of segment records comes from a segment of
  the list with \<open>start = round(start, 3)\<close> and \<open>duration = round(end - start, 3)\<close>, and
  both values have at most three decimals: a float among them is the float nearest to a
  multiple of \<open>1 / 1000\<close>.
\<close>

theorem clip_values_rounded:
  assumes "list_all is_segment segs"
    and "segments_to_timeline_clips segs = Inr clips"
    and "c \<in> set clips"
  shows "\<exists>seg\<in>set segs.
           py_round3 (seg_start seg) = Inr (start c) \<and>
           (\<exists>diff. py_sub (seg_end seg) (seg_start seg) = Inr diff \<and>
                   py_round3 diff = Inr (duration c)) \<and>
           three_decimals (start c) \<and> three_decimals (duration c)"
proof -
  have "clips = List.map_filter spec_clip segs"
    using converter_on_segments [OF assms(1)] assms(2) by simp
  then obtain seg where seg: "seg \<in> set segs" "spec_clip seg = Some c"
    using assms(3) map_filter_member by fastforce
  have is_seg: "is_segment seg"
    using assms(1) seg(1) by (simp add: list_all_iff)
  have c: "start c = num_round3 (seg_start seg)" "duration c = seg_duration seg"
    using seg(2) by (rule spec_clip_fields)+
  have s: "seg_start seg = PyInt 0 \<or> (\<exists>r. seg_start seg = PyFloat (Finite r))"
    and e: "seg_end seg = PyInt 0 \<or> (\<exists>r. seg_end seg = PyFloat (Finite r))"
    using segment_values [OF is_seg] by simp_all
  have r1: "py_round3 (seg_start seg) = Inr (start c)"
    using s c(1) by auto
  have sub: "py_sub (seg_end seg) (seg_start seg) = Inr (num_sub (seg_end seg) (seg_start seg))"
    using e s by (rule py_sub_segment)
  have r2: "py_round3 (num_sub (seg_end seg) (seg_start seg)) = Inr (duration c)"
    using py_round3_num [OF num_sub_is_num [OF e s]] c(2) by (simp add: seg_duration_def)
  have d1: "three_decimals (start c)"
    using s c(1) by (auto simp: three_decimals_to_double) (simp add: three_decimals_def)
  have d2: "three_decimals (duration c)"
    using seg_duration_cases [OF is_seg] c(2)
    by (auto simp: three_decimals_round3) (simp add: three_decimals_def)
  show ?thesis
    using seg(1) r1 sub r2 d1 d2 by blast
qed

theorem clip_values_rounded_witness:
  "list_all is_segment
     [[''start'' \<mapsto> PyFloat (to_double (12 / 10)),
       ''end'' \<mapsto> PyFloat (to_double (37 / 10)),
       ''text'' \<mapsto> PyStr '' Hello world '']] \<and>
   segments_to_timeline_clips
     [[''start'' \<mapsto> PyFloat (to_double (12 / 10)),
       ''end'' \<mapsto> PyFloat (to_double (37 / 10)),
       ''text'' \<mapsto> PyStr '' Hello world '']] =
   Inr [\<lparr>start = PyFloat (to_double (12 / 10)),
         duration = PyFloat (to_double (25 / 10)),
         subtitleText = ''Hello world''\<rparr>] \<and>
   \<lparr>start = PyFloat (to_double (12 / 10)),
    duration = PyFloat (to_double (25 / 10)),
    subtitleText = ''Hello world''\<rparr> \<in>
   set [\<lparr>start = PyFloat (to_double (12 / 10)),
         duration = PyFloat (to_double (25 / 10)),
         subtitleText = ''Hello world''\<rparr>] \<and>
   (\<exists>seg\<in>set [[''start'' \<mapsto> PyFloat (to_double (12 / 10)),
                  ''end'' \<mapsto> PyFloat (to_double (37 / 10)),
                  ''text'' \<mapsto> PyStr '' Hello world '']].
      py_round3 (seg_start seg) = Inr (PyFloat (to_double (12 / 10))) \<and>
      (\<exists>diff. py_sub (seg_end seg) (seg_start seg) = Inr diff \<and>
              py_round3 diff = Inr (PyFloat (to_double (25 / 10)))) \<and>
      three_decimals (PyFloat (to_double (12 / 10))) \<and>
      three_decimals (PyFloat (to_double (25 / 10))))"
proof -
  let ?segs = "[[''start'' \<mapsto> PyFloat (to_double (12 / 10)),
       ''end'' \<mapsto> PyFloat (to_double (37 / 10)),
       ''text'' \<mapsto> PyStr '' Hello world '']]"
  let ?c = "\<lparr>start = PyFloat (to_double (12 / 10)),
         duration = PyFloat (to_double (25 / 10)),
         subtitleText = ''Hello world''\<rparr>"
  have h1: "list_all is_segment ?segs"
    by (simp add: is_segment_def double_6_5 double_37_10)
  have h2: "segments_to_timeline_clips ?segs = Inr [?c]"
    unfolding segments_to_timeline_clips_def by (rule scenario_loop)
  have h3: "?c \<in> set [?c]" by simp
  show ?thesis
    using h1 h2 h3 clip_values_rounded [OF h1 h2 h3] by simp
qed

text \<open>
  Claim C7. On the single segment \<open>{start: 1.2, end: 3.7, text: " Hello world "}\<close> the
  converter returns exactly \<open>[{start: 1.2, duration: 2.5, subtitleText: "Hello world"}]\<close>,
  each decimal standing for the float Python reads it as.
\<close>

theorem hello_world_scenario:
  "segments_to_timeline_clips
     [[''start'' \<mapsto> PyFloat (to_double (12 / 10)),
       ''end'' \<mapsto> PyFloat (to_double (37 / 10)),
       ''text'' \<mapsto> PyStr '' Hello world '']] =
   Inr [\<lparr>start = PyFloat (to_double (12 / 10)),
         duration = PyFloat (to_double (25 / 10)),
         subtitleText = ''Hello world''\<rparr>]"
  unfolding segments_to_timeline_clips_def by (rule scenario_loop)

subsection \<open>Missing keys\<close>

lemma dict_get_with_defaults:
  "dict_get (with_defaults seg) ''start'' (PyInt 0) = dict_get seg ''start'' (PyInt 0)"
  "dict_get (with_defaults seg) ''end'' d =
     dict_get seg ''end'' (dict_get seg ''start'' (PyInt 0))"
  "dict_get (with_defaults seg) ''text'' (PyStr []) = dict_get seg ''text'' (PyStr [])"
  by (simp_all add: with_defaults_def dict_get_def Let_def split: option.splits)

lemma clips_loop_with_defaults:
  "clips_loop acc (map with_defaults segs) = clips_loop acc segs"
proof (induction segs arbitrary: acc)
  case Nil
  then show ?case by simp
next
  case (Cons seg segs)
  show ?case
    by (simp add: dict_get_with_defaults Cons.IH Let_def split: sum.split)
qed

lemma spec_clip_missing_end:
  assumes "is_segment seg" and "seg ''end'' = None"
  shows "spec_clip seg = None"
proof -
  have e: "seg_end seg = seg_start seg"
    using assms(2) by (simp add: seg_end_def dict_get_def)
  have "num_le0 (seg_duration seg)"
    using segment_values(1) [OF assms(1)]
    by (auto simp: seg_duration_def e to_double_zero round_half_even_zero)
  then show ?thesis by (simp add: spec_clip_def)
qed

lemma spec_clip_missing_text:
  assumes "seg ''text'' = None"
  shows "spec_clip seg = None"
proof -
  have "seg_text seg = []"
    using assms by (simp add: seg_text_def dict_get_def strip_def)
  then show ?thesis by (simp add: spec_clip_def)
qed

text \<open>
  Claim C10. On segment records with missing keys the converter raises no exception.
  A missing \<open>start\<close> counts as 0, a missing \<open>end\<close> as the segment's start and a missing
  \<open>text\<close> as the empty string: writing the defaults into the segments changes nothing.
  A segment without \<open>end\<close> therefore has duration 0 and one without \<open>text\<close> a blank
  text, and both are dropped: leaving them out of the list changes nothing.
\<close>

theorem missing_keys_default_and_drop:
  assumes "list_all is_segment segs"
  shows "(\<exists>clips. segments_to_timeline_clips segs = Inr clips) \<and>
         segments_to_timeline_clips (map with_defaults segs) =
           segments_to_timeline_clips segs \<and>
         segments_to_timeline_clips
           (filter (\<lambda>seg. seg ''end'' \<noteq> None \<and> seg ''text'' \<noteq> None) segs) =
           segments_to_timeline_clips segs"
proof -
  let ?P = "\<lambda>seg. seg ''end'' \<noteq> None \<and> seg ''text'' \<noteq> None"
  have seg: "\<And>x. x \<in> set segs \<Longrightarrow> is_segment x"
    using assms by (simp add: list_all_iff)
  have total: "segments_to_timeline_clips segs = Inr (List.map_filter spec_clip segs)"
    using assms by (rule converter_on_segments)
  have defaults: "segments_to_timeline_clips (map with_defaults segs) =
      segments_to_timeline_clips segs"
    by (simp add: segments_to_timeline_clips_def clips_loop_with_defaults)
  have dropped: "\<And>x. x \<in> set segs \<Longrightarrow> \<not> ?P x \<Longrightarrow> spec_clip x = None"
    using spec_clip_missing_end [OF seg] spec_clip_missing_text by blast
  have "segments_to_timeline_clips (filter ?P segs) =
        Inr (List.map_filter spec_clip (filter ?P segs))"
    using list_all_filter [OF assms] by (rule converter_on_segments)
  also have "\<dots> = Inr (List.map_filter spec_clip segs)"
    using map_filter_filter [of segs ?P spec_clip] dropped by simp
  finally have filtered: "segments_to_timeline_clips (filter ?P segs) =
      segments_to_timeline_clips segs"
    using total by simp
  show ?thesis using total defaults filtered by simp
qed

theorem missing_keys_default_and_drop_witness:
  "list_all is_segment
     [[''end'' \<mapsto> PyFloat (to_double (25 / 10)), ''text'' \<mapsto> PyStr ''a''],
      [''start'' \<mapsto> PyFloat (to_double (12 / 10)), ''text'' \<mapsto> PyStr ''b''],
      [''start'' \<mapsto> PyFloat (to_double (12 / 10)), ''end'' \<mapsto> PyFloat (to_double (37 / 10))],
      Map.empty] \<and>
   segments_to_timeline_clips
     [[''end'' \<mapsto> PyFloat (to_double (25 / 10)), ''text'' \<mapsto> PyStr ''a''],
      [''start'' \<mapsto> PyFloat (to_double (12 / 10)), ''text'' \<mapsto> PyStr ''b''],
      [''start'' \<mapsto> PyFloat (to_double (12 / 10)), ''end'' \<mapsto> PyFloat (to_double (37 / 10))],
      Map.empty] =
   Inr [\<lparr>start = PyInt 0, duration = PyFloat (to_double (25 / 10)), subtitleText = ''a''\<rparr>]"
proof -
  let ?segs = "[[''end'' \<mapsto> PyFloat (to_double (25 / 10)), ''text'' \<mapsto> PyStr ''a''],
      [''start'' \<mapsto> PyFloat (to_double (12 / 10)), ''text'' \<mapsto> PyStr ''b''],
      [''start'' \<mapsto> PyFloat (to_double (12 / 10)), ''end'' \<mapsto> PyFloat (to_double (37 / 10))],
      Map.empty]"
  have h: "list_all is_segment ?segs"
    by (simp add: is_segment_def double_6_5 double_37_10 double_5_2)
  have f: "filter (\<lambda>seg. seg ''end'' \<noteq> None \<and> seg ''text'' \<noteq> None) ?segs =
      [[''end'' \<mapsto> PyFloat (to_double (25 / 10)), ''text'' \<mapsto> PyStr ''a'']]"
    by simp
  have one: "segments_to_timeline_clips
      [[''end'' \<mapsto> PyFloat (to_double (25 / 10)), ''text'' \<mapsto> PyStr ''a'']] =
      Inr [\<lparr>start = PyInt 0, duration = PyFloat (to_double (25 / 10)), subtitleText = ''a''\<rparr>]"
    by (simp add: segments_to_timeline_clips_def dict_get_def double_5_2 int_to_float_zero
        round3_25 strip_def py_isspace_def del: float_round3.simps)
  show ?thesis
    using h missing_keys_default_and_drop [OF h] f one by simp
qed

section \<open>Properties of the endpoints\<close>

subsection \<open>The temporary file\<close>



lemma unlink_refused:
  "unlink_error ev = Some e \<Longrightarrow> unlink ev path files_on_disk = Inl e"
  by (simp add: unlink_def)

text \<open>
  The handler after the temporary file exists: the answer is the one of the \<open>try\<close>
  block, or 500 for its exception, and the world is the one the block left, with the
  traceback logged in the second case and \<open>unlink\<close> applied.
\<close>

lemma handle_transcribe_created:
  assumes "files req ''file'' = Some up" and "filename up \<noteq> []"
    and "NamedTemporaryFile ev (temp_suffix (filename up)) (fs w) = Inr (tmp_name, fs1)"
    and "transcribe_body ev req up (temp_suffix (filename up)) tmp_name (w\<lparr>fs := fs1\<rparr>) =
         (result, w2)"
  shows "fst (handle_transcribe ev req w) =
           Inr (case result of
                  Inr resp \<Rightarrow> resp
                | Inl exc \<Rightarrow>
                    \<lparr>status = 500,
                     body = json_error (''Transcription failed: '' @ exc_str exc)\<rparr>)"
    and "log (snd (handle_transcribe ev req w)) =
           (case result of Inr resp \<Rightarrow> log w2 | Inl exc \<Rightarrow> log w2 @ [LogTraceback exc])"
    and "fs (snd (handle_transcribe ev req w)) =
           (case unlink ev tmp_name (fs w2) of Inl e \<Rightarrow> fs w2 | Inr fs4 \<Rightarrow> fs4)"
  using assms
  by (auto simp: handle_transcribe_def Let_def split: sum.splits)



subsection \<open>Health\<close>

text \<open>
  Claim C8. Every \<open>GET /health\<close> request is answered with status 200 and body
  \<open>{"status": "ok"}\<close>, whatever the state before it, and leaves the state as it was.
\<close>

theorem health_always_ok:
  "health w = (\<lparr>status = 200, body = JObj [(''status'', JStr ''ok'')]\<rparr>, w)"
  by (simp add: health_def)

subsection \<open>Answers of the transcription endpoint\<close>

lemma transcribe_body_ok:
  assumes "transcribe_body ev req up suffix tmp_name w = (Inr resp, w2)"
  shows "\<exists>language segments fs3 clips.
           transcribe ev ((fs w)(tmp_name \<mapsto> content up)) tmp_name language =
             (Inr segments, fs3) \<and>
           segments_to_timeline_clips segments = Inr clips \<and>
           resp = \<lparr>status = 200,
                   body = JObj [(''clips'', JArr (map clip_json clips)),
                                (''segmentCount'', JInt (int (length clips)))]\<rparr>"
  using assms
  by (auto simp: transcribe_body_def Let_def split: option.splits prod.splits sum.splits)

text \<open>
  Claim C9. In every 200 response of \<open>POST /transcribe\<close> the field \<open>segmentCount\<close> is
  the number of elements of the array \<open>clips\<close>, the clips the converter emitted for the
  collaborator's segments: the count after the dropped segments are gone, not the
  number of segments the collaborator returned.
\<close>

theorem segment_count_is_clip_count:
  assumes "handle_transcribe ev req w = (Inr resp, w')"
    and "status resp = 200"
  shows "\<exists>files_on_disk path language segments fs3 clips.
           transcribe ev files_on_disk path language = (Inr segments, fs3) \<and>
           segments_to_timeline_clips segments = Inr clips \<and>
           body resp = JObj [(''clips'', JArr (map clip_json clips)),
                             (''segmentCount'', JInt (int (length clips)))]"
proof (cases "files req ''file''")
  case None
  then show ?thesis using assms by (auto simp: handle_transcribe_def)
next
  case (Some up)
  show ?thesis
  proof (cases "filename up = []")
    case True
    then show ?thesis using assms Some by (auto simp: handle_transcribe_def)
  next
    case False
    show ?thesis
    proof (cases "NamedTemporaryFile ev (temp_suffix (filename up)) (fs w)")
      case (Inl e)
      then show ?thesis using assms Some False by (simp add: handle_transcribe_def)
    next
      case (Inr created)
      obtain tmp_name fs1 where created: "created = (tmp_name, fs1)" by (cases created)
      obtain result w2 where
        run: "transcribe_body ev req up (temp_suffix (filename up)) tmp_name (w\<lparr>fs := fs1\<rparr>) =
              (result, w2)"
        by (cases "transcribe_body ev req up (temp_suffix (filename up)) tmp_name (w\<lparr>fs := fs1\<rparr>)")
      have answer: "Inr resp =
          Inr (case result of
                 Inr r \<Rightarrow> r
               | Inl exc \<Rightarrow>
                   \<lparr>status = 500,
                    body = json_error (''Transcription failed: '' @ exc_str exc)\<rparr>)"
        using handle_transcribe_created(1) [OF Some False Inr [unfolded created] run] assms(1)
        by simp
      show ?thesis
      proof (cases result)
        case (Inl exc)
        then show ?thesis using answer assms(2) by simp
      next
        case (Inr r)
        then have "transcribe_body ev req up (temp_suffix (filename up)) tmp_name
            (w\<lparr>fs := fs1\<rparr>) = (Inr resp, w2)"
          using answer run by simp
        from transcribe_body_ok [OF this] show ?thesis by fastforce
      qed
    qed
  qed
qed

lemma splitext_clip: "splitext_ext ''clip.mov'' = ''.mov''"
  by (simp add: splitext_ext_def Let_def)

lemma temp_suffix_clip: "temp_suffix ''clip.mov'' = ''.mov''"
  by (simp add: temp_suffix_def splitext_clip)

lemma sub_37_37: "float_sub (to_double (37 / 10)) (to_double (37 / 10)) = Finite 0"
  by (simp add: double_37_10 to_double_zero)

lemma two_segments_converted:
  "segments_to_timeline_clips
     [[''start'' \<mapsto> PyFloat (to_double (12 / 10)),
       ''end'' \<mapsto> PyFloat (to_double (37 / 10)),
       ''text'' \<mapsto> PyStr '' Hello world ''],
      [''start'' \<mapsto> PyFloat (to_double (37 / 10)),
       ''end'' \<mapsto> PyFloat (to_double (37 / 10)),
       ''text'' \<mapsto> PyStr ''x'']] =
   Inr [\<lparr>start = PyFloat (to_double (12 / 10)),
         duration = PyFloat (to_double (25 / 10)),
         subtitleText = ''Hello world''\<rparr>]"
  by (simp add: segments_to_timeline_clips_def dict_get_def sub_37_12 sub_37_37 round3_25
      round3_12 float_round3_zero strip_hello double_5_2
      del: float_round3.simps float_sub.simps)

theorem segments_to_timeline_clips_spec_witness:
  "list_all is_segment
     [[''start'' \<mapsto> PyFloat (to_double (12 / 10)),
       ''end'' \<mapsto> PyFloat (to_double (37 / 10)),
       ''text'' \<mapsto> PyStr '' Hello world ''],
      [''start'' \<mapsto> PyFloat (to_double (37 / 10)),
       ''end'' \<mapsto> PyFloat (to_double (37 / 10)),
       ''text'' \<mapsto> PyStr ''x'']] \<and>
   List.map_filter spec_clip
     [[''start'' \<mapsto> PyFloat (to_double (12 / 10)),
       ''end'' \<mapsto> PyFloat (to_double (37 / 10)),
       ''text'' \<mapsto> PyStr '' Hello world ''],
      [''start'' \<mapsto> PyFloat (to_double (37 / 10)),
       ''end'' \<mapsto> PyFloat (to_double (37 / 10)),
       ''text'' \<mapsto> PyStr ''x'']] =
   [\<lparr>start = PyFloat (to_double (12 / 10)),
     duration = PyFloat (to_double (25 / 10)),
     subtitleText = ''Hello world''\<rparr>]"
proof -
  let ?segs = "[[''start'' \<mapsto> PyFloat (to_double (12 / 10)),
       ''end'' \<mapsto> PyFloat (to_double (37 / 10)),
       ''text'' \<mapsto> PyStr '' Hello world ''],
      [''start'' \<mapsto> PyFloat (to_double (37 / 10)),
       ''end'' \<mapsto> PyFloat (to_double (37 / 10)),
       ''text'' \<mapsto> PyStr ''x'']]"
  have h: "list_all is_segment ?segs"
    by (simp add: is_segment_def double_6_5 double_37_10)
  have "Inr (List.map_filter spec_clip ?segs) =
      (Inr [\<lparr>start = PyFloat (to_double (12 / 10)),
             duration = PyFloat (to_double (25 / 10)),
             subtitleText = ''Hello world''\<rparr>] :: py_exception + clip list)"
    using segments_to_timeline_clips_spec [OF h] two_segments_converted by (rule trans [OF sym])
  then show ?thesis using h by simp
qed

lemma example_created:
  "NamedTemporaryFile example_env ''.mov'' empty_disk =
   Inr (''/tmp/tmpk3x9q2aa.mov'', empty_disk(''/tmp/tmpk3x9q2aa.mov'' \<mapsto> []))"
  by (simp add: NamedTemporaryFile_def example_env_def empty_disk_def)

lemma example_body:
  "fst (transcribe_body example_env example_request
     \<lparr>filename = ''clip.mov'', content = ''bytes''\<rparr> ''.mov'' ''/tmp/tmpk3x9q2aa.mov''
     (example_world\<lparr>fs := empty_disk(''/tmp/tmpk3x9q2aa.mov'' \<mapsto> [])\<rparr>)) =
   Inr \<lparr>status = 200,
        body = JObj [(''clips'',
                      JArr [clip_json \<lparr>start = PyFloat (to_double (12 / 10)),
                                       duration = PyFloat (to_double (25 / 10)),
                                       subtitleText = ''Hello world''\<rparr>]),
                     (''segmentCount'', JInt 1)]\<rparr>"
  by (simp add: transcribe_body_def example_env_def example_request_def no_fields_def
      form_language_def two_segment_transcriber_def two_segments_converted [simplified]
      Let_def)

lemma example_answer:
  "fst (handle_transcribe example_env example_request example_world) =
   Inr \<lparr>status = 200,
        body = JObj [(''clips'',
                      JArr [clip_json \<lparr>start = PyFloat (to_double (12 / 10)),
                                       duration = PyFloat (to_double (25 / 10)),
                                       subtitleText = ''Hello world''\<rparr>]),
                     (''segmentCount'', JInt 1)]\<rparr>"
proof -
  let ?up = "\<lparr>filename = ''clip.mov'', content = ''bytes''\<rparr>"
  have f: "files example_request ''file'' = Some ?up"
    by (simp add: example_request_def clip_upload_def)
  have n: "filename ?up \<noteq> []" by simp
  have c: "NamedTemporaryFile example_env (temp_suffix (filename ?up)) (fs example_world) =
      Inr (''/tmp/tmpk3x9q2aa.mov'', empty_disk(''/tmp/tmpk3x9q2aa.mov'' \<mapsto> []))"
    by (simp add: temp_suffix_clip example_created example_world_def)
  obtain result w2 where
    run: "transcribe_body example_env example_request ?up (temp_suffix (filename ?up))
            ''/tmp/tmpk3x9q2aa.mov''
            (example_world\<lparr>fs := empty_disk(''/tmp/tmpk3x9q2aa.mov'' \<mapsto> [])\<rparr>) = (result, w2)"
    by (cases "transcribe_body example_env example_request ?up (temp_suffix (filename ?up))
            ''/tmp/tmpk3x9q2aa.mov''
            (example_world\<lparr>fs := empty_disk(''/tmp/tmpk3x9q2aa.mov'' \<mapsto> [])\<rparr>)")
  have r: "result = Inr \<lparr>status = 200,
        body = JObj [(''clips'',
                      JArr [clip_json \<lparr>start = PyFloat (to_double (12 / 10)),
                                       duration = PyFloat (to_double (25 / 10)),
                                       subtitleText = ''Hello world''\<rparr>]),
                     (''segmentCount'', JInt 1)]\<rparr>"
    using example_body run by (simp add: temp_suffix_clip)
  show ?thesis
    using handle_transcribe_created(1) [OF f n c run] by (simp add: r)
qed

theorem segment_count_is_clip_count_witness:
  "fst (handle_transcribe example_env example_request example_world) =
     Inr \<lparr>status = 200,
          body = JObj [(''clips'',
                        JArr [clip_json \<lparr>start = PyFloat (to_double (12 / 10)),
                                         duration = PyFloat (to_double (25 / 10)),
                                         subtitleText = ''Hello world''\<rparr>]),
                       (''segmentCount'', JInt 1)]\<rparr> \<and>
   (\<exists>files_on_disk path language segments fs3 clips.
      transcribe example_env files_on_disk path language = (Inr segments, fs3) \<and>
      length segments = 2 \<and>
      segments_to_timeline_clips segments = Inr clips \<and>
      JObj [(''clips'',
             JArr [clip_json \<lparr>start = PyFloat (to_double (12 / 10)),
                              duration = PyFloat (to_double (25 / 10)),
                              subtitleText = ''Hello world''\<rparr>]),
            (''segmentCount'', JInt 1)] =
      JObj [(''clips'', JArr (map clip_json clips)),
            (''segmentCount'', JInt (int (length clips)))])"
proof -
  let ?resp = "\<lparr>status = 200,
          body = JObj [(''clips'',
                        JArr [clip_json \<lparr>start = PyFloat (to_double (12 / 10)),
                                         duration = PyFloat (to_double (25 / 10)),
                                         subtitleText = ''Hello world''\<rparr>]),
                       (''segmentCount'', JInt 1)]\<rparr>"
  have h1: "handle_transcribe example_env example_request example_world =
      (Inr ?resp, snd (handle_transcribe example_env example_request example_world))"
    using example_answer by (simp add: prod_eq_iff)
  have h2: "status ?resp = 200" by simp
  have len: "\<And>f p l segs fs3. transcribe example_env f p l = (Inr segs, fs3) \<Longrightarrow>
      length segs = 2"
    by (auto simp: example_env_def two_segment_transcriber_def)
  show ?thesis
    using example_answer segment_count_is_clip_count [OF h1 h2] len by fastforce
qed

subsection \<open>Failures of the transcription endpoint\<close>







subsection \<open>Life of the temporary file\<close>



end
